theory Spec2Isabelle
  imports Main
begin

section \<open>Values, errors and the environment\<close>

text \<open>
  A Python \<open>str\<close> is a sequence of code points. It can hold a lone surrogate (a code
  point from U+D800 to U+DFFF): a command-line argument that is not valid UTF-8 is
  decoded to one, and so is the escape \<open>\ud800\<close> of a JSON document. Such a string
  cannot be encoded as UTF-8. \<open>str\<close> turns a literal of the theory into a Python
  string; its code points are below 256.
\<close>

type_synonym pystr = "nat list"

definition str :: "string \<Rightarrow> pystr" where
  "str s = map of_char s"

definition is_surrogate :: "nat \<Rightarrow> bool" where
  "is_surrogate cp \<longleftrightarrow> 55296 \<le> cp \<and> cp \<le> 57343"

definition encodable :: "pystr \<Rightarrow> bool" where
  "encodable s \<longleftrightarrow> list_all (\<lambda>cp. \<not> is_surrogate cp) s"

text \<open>
  The tool keeps its cases in a JSON file. Python checks none of the dataclass
  annotations, so a field of a case holds whatever value the constructor was given:
  after \<open>load\<close> that is whatever \<open>json.load\<close> found in the file. Field values are
  therefore values of \<open>pyval\<close>, the Python values a JSON document decodes to (numbers
  with a fraction or an exponent are left out). A dict is an association list in
  insertion order; \<open>map_of\<close> reads a key.
\<close>

datatype pyval =
    PNone
  | PBool bool
  | PInt int
  | PStr pystr
  | PList "pyval list"
  | PDict "(pystr \<times> pyval) list"

text \<open>The exceptions that the modelled code can raise.\<close>

datatype error =
    JSONDecodeError
  | UnicodeDecodeError
  | UnicodeEncodeError
  | TypeError
  | ValueError
  | AttributeError

type_synonym path = string

text \<open>
  A clock reading is the string \<open>datetime.utcnow().isoformat()\<close> returns at some
  moment; the calendar arithmetic behind it belongs to the library.
\<close>

type_synonym timestamp = string

text \<open>
  The bytes of a file are not UTF-8, or they are text that \<open>json.load\<close> rejects, or
  they are text that is a JSON document. The file system maps the paths that exist
  to their contents. Opening a file succeeds: a failure of the operating system
  (permissions, a missing directory, a full disk) is outside the model. What a run
  does to the outside is recorded in a trace: the documents written, the writes that
  broke off, and the messages printed, the latter by their kind and arguments instead
  of the German text.
\<close>

datatype file_content = NotUtf8 | NotJson | Document pyval

datatype message =
    AlreadyExists path      \<comment> \<open>"Datenbestand existiert bereits unter {path}."\<close>
  | DatabaseCreated path    \<comment> \<open>"Neue SAV-Datenbank erstellt: {path}"\<close>
  | CaseCreated pyval       \<comment> \<open>"Fall #{case_id} erfolgreich angelegt."\<close>
  | CaseUpdated pyval pyval \<comment> \<open>"Fall #{case_id} aktualisiert (Status: {status})."\<close>
  | CaseNotFound int        \<comment> \<open>"Kein Fall mit der ID {case_id} gefunden."\<close>

datatype event = Wrote path pyval | WriteFailed path | Printed message

record world =
  files :: "path \<rightharpoonup> file_content"
  trace :: "event list"

text \<open>
  A step that changes the world and may raise: \<open>Inl (e, w)\<close> is the exception \<open>e\<close>
  leaving the world \<open>w\<close> behind, \<open>Inr w\<close> the normal return.
\<close>

type_synonym outcome = "(error \<times> world) + world"

section \<open>The JSON library\<close>

text \<open>
  \<open>json.dump(data, fp, indent=2, ensure_ascii=False)\<close> writes the document piece by
  piece, in the order of the data. Two pieces cannot be written. With
  \<open>ensure_ascii=False\<close> a string goes to the file as it is, and the UTF-8 encoder of
  the file raises \<open>UnicodeEncodeError\<close> on a lone surrogate. The decimal text of an
  integer of more than 4300 digits raises \<open>ValueError\<close> (CPython 3.11 and later, with
  the default limit); \<open>json.load\<close> raises the same on reading such an integer.
  \<open>encode_error\<close> is the first exception of the dump, \<open>decode_error\<close> that of the load.
\<close>

definition int_repr_limit :: int where
  "int_repr_limit = 10 ^ 4300"

definition int_repr_ok :: "int \<Rightarrow> bool" where
  "int_repr_ok i \<longleftrightarrow> \<bar>i\<bar> < int_repr_limit"

fun first_error :: "error option list \<Rightarrow> error option" where
  "first_error [] = None"
| "first_error (None # es) = first_error es"
| "first_error (Some e # es) = Some e"

definition str_error :: "pystr \<Rightarrow> error option" where
  "str_error s = (if encodable s then None else Some UnicodeEncodeError)"

definition int_error :: "int \<Rightarrow> error option" where
  "int_error i = (if int_repr_ok i then None else Some ValueError)"

fun encode_error :: "pyval \<Rightarrow> error option" where
  "encode_error PNone = None"
| "encode_error (PBool b) = None"
| "encode_error (PInt i) = int_error i"
| "encode_error (PStr s) = str_error s"
| "encode_error (PList vs) = first_error (map encode_error vs)"
| "encode_error (PDict kvs) =
     first_error (concat (map (\<lambda>kv. [str_error (fst kv), encode_error (snd kv)]) kvs))"

fun decode_error :: "pyval \<Rightarrow> error option" where
  "decode_error PNone = None"
| "decode_error (PBool b) = None"
| "decode_error (PInt i) = int_error i"
| "decode_error (PStr s) = None"
| "decode_error (PList vs) = first_error (map decode_error vs)"
| "decode_error (PDict kvs) = first_error (map (\<lambda>kv. decode_error (snd kv)) kvs)"

section \<open>ServiceCase\<close>

record ServiceCase =
  case_id :: pyval
  customer_name :: pyval
  contact_email :: pyval
  product_model :: pyval
  serial_number :: pyval
  issue_description :: pyval
  status :: pyval
  created_at :: pyval
  updated_at :: pyval
  resolution_notes :: pyval

text \<open>
  The defaults of \<open>created_at\<close> and \<open>updated_at\<close> are class attributes: the two calls
  of \<open>datetime.utcnow().isoformat()\<close> in the class body run once, when the class
  statement is executed. The class object keeps the two readings.
\<close>

record ServiceCase_class =
  default_created_at :: timestamp
  default_updated_at :: timestamp

definition class_ServiceCase :: "timestamp \<Rightarrow> timestamp \<Rightarrow> ServiceCase_class" where
  "class_ServiceCase t1 t2 = \<lparr>default_created_at = t1, default_updated_at = t2\<rparr>"

definition field_names :: "pystr list" where
  "field_names =
     [str ''case_id'', str ''customer_name'', str ''contact_email'', str ''product_model'',
      str ''serial_number'', str ''issue_description'', str ''status'', str ''created_at'',
      str ''updated_at'', str ''resolution_notes'']"

definition get_default :: "(pystr \<times> pyval) list \<Rightarrow> string \<Rightarrow> pyval \<Rightarrow> pyval" where
  "get_default kw k d = (case map_of kw (str k) of None \<Rightarrow> d | Some v \<Rightarrow> v)"

text \<open>
  The generated \<open>__init__\<close>, called with keyword arguments: a keyword that is not a
  field and a missing field without a default both raise \<open>TypeError\<close>.
\<close>

definition ServiceCase_init ::
  "ServiceCase_class \<Rightarrow> (pystr \<times> pyval) list \<Rightarrow> error + ServiceCase" where
  "ServiceCase_init cls kw =
     (if \<not> list_all (\<lambda>k. k \<in> set field_names) (map fst kw) then Inl TypeError
      else case (map_of kw (str ''case_id''), map_of kw (str ''customer_name''),
                 map_of kw (str ''contact_email''), map_of kw (str ''product_model''),
                 map_of kw (str ''serial_number''), map_of kw (str ''issue_description'')) of
        (Some i, Some n, Some e, Some m, Some s, Some d) \<Rightarrow>
          Inr \<lparr>case_id = i, customer_name = n, contact_email = e, product_model = m,
               serial_number = s, issue_description = d,
               status = get_default kw ''status'' (PStr (str ''open'')),
               created_at = get_default kw ''created_at'' (PStr (str (default_created_at cls))),
               updated_at = get_default kw ''updated_at'' (PStr (str (default_updated_at cls))),
               resolution_notes = get_default kw ''resolution_notes'' (PStr [])\<rparr>
      | _ \<Rightarrow> Inl TypeError)"

text \<open>\<open>cls(**data)\<close>: anything but a mapping after \<open>**\<close> raises \<open>TypeError\<close>.\<close>

fun from_dict :: "ServiceCase_class \<Rightarrow> pyval \<Rightarrow> error + ServiceCase" where
  "from_dict cls (PDict kw) = ServiceCase_init cls kw"
| "from_dict cls _ = Inl TypeError"

definition asdict :: "ServiceCase \<Rightarrow> (pystr \<times> pyval) list" where
  "asdict c =
     [(str ''case_id'', case_id c), (str ''customer_name'', customer_name c),
      (str ''contact_email'', contact_email c), (str ''product_model'', product_model c),
      (str ''serial_number'', serial_number c),
      (str ''issue_description'', issue_description c),
      (str ''status'', status c), (str ''created_at'', created_at c),
      (str ''updated_at'', updated_at c), (str ''resolution_notes'', resolution_notes c)]"

text \<open>
  \<open>update_status\<close> reads the clock once; \<open>now\<close> is that reading. The three
  assignments are in the order of the source.
\<close>

definition update_status ::
  "timestamp \<Rightarrow> pystr \<Rightarrow> pystr option \<Rightarrow> ServiceCase \<Rightarrow> ServiceCase" where
  "update_status now new_status notes c =
     (let c1 = c\<lparr>status := PStr new_status\<rparr>;
          c2 = (case notes of None \<Rightarrow> c1 | Some n \<Rightarrow> c1\<lparr>resolution_notes := PStr n\<rparr>)
      in c2\<lparr>updated_at := PStr (str now)\<rparr>)"

text \<open>The annotations of the dataclass, as a predicate.\<close>

fun is_int :: "pyval \<Rightarrow> bool" where
  "is_int (PInt _) = True"
| "is_int _ = False"

fun is_str :: "pyval \<Rightarrow> bool" where
  "is_str (PStr _) = True"
| "is_str _ = False"

definition well_typed :: "ServiceCase \<Rightarrow> bool" where
  "well_typed c \<longleftrightarrow>
     is_int (case_id c) \<and> is_str (customer_name c) \<and> is_str (contact_email c) \<and>
     is_str (product_model c) \<and> is_str (serial_number c) \<and>
     is_str (issue_description c) \<and> is_str (status c) \<and> is_str (created_at c) \<and>
     is_str (updated_at c) \<and> is_str (resolution_notes c)"

section \<open>CaseRepository\<close>

record CaseRepository =
  file_path :: path

definition exists_file :: "world \<Rightarrow> path \<Rightarrow> bool" where
  "exists_file w p \<longleftrightarrow> files w p \<noteq> None"

text \<open>
  Iterating a Python value, as the list comprehension of \<open>load\<close> does: a list gives
  its items, a dict its keys, a string its characters; the other values are not
  iterable.
\<close>

fun py_iter :: "pyval \<Rightarrow> error + pyval list" where
  "py_iter (PList xs) = Inr xs"
| "py_iter (PDict kvs) = Inr (map (\<lambda>kv. PStr (fst kv)) kvs)"
| "py_iter (PStr s) = Inr (map (\<lambda>cp. PStr [cp]) s)"
| "py_iter _ = Inl TypeError"

fun traverse :: "('a \<Rightarrow> error + 'b) \<Rightarrow> 'a list \<Rightarrow> error + 'b list" where
  "traverse f [] = Inr []"
| "traverse f (x # xs) =
     (case f x of
        Inl e \<Rightarrow> Inl e
      | Inr y \<Rightarrow> (case traverse f xs of Inl e \<Rightarrow> Inl e | Inr ys \<Rightarrow> Inr (y # ys)))"

text \<open>
  \<open>load\<close>: no file gives the empty list; otherwise the file is opened as UTF-8 text,
  \<open>json.load\<close> decodes it, and every item goes through \<open>from_dict\<close>.
\<close>

definition load :: "ServiceCase_class \<Rightarrow> CaseRepository \<Rightarrow> world \<Rightarrow> error + ServiceCase list" where
  "load cls repo w =
     (case files w (file_path repo) of
        None \<Rightarrow> Inr []   \<comment> \<open>\<open>not self.file_path.exists()\<close>\<close>
      | Some NotUtf8 \<Rightarrow> Inl UnicodeDecodeError
      | Some NotJson \<Rightarrow> Inl JSONDecodeError
      | Some (Document raw_cases) \<Rightarrow>
          (case decode_error raw_cases of
             Some e \<Rightarrow> Inl e
           | None \<Rightarrow>
               (case py_iter raw_cases of
                  Inl e \<Rightarrow> Inl e
                | Inr items \<Rightarrow> traverse (from_dict cls) items)))"

definition dump :: "ServiceCase list \<Rightarrow> pyval" where
  "dump cases = PList (map (\<lambda>c. PDict (asdict c)) cases)"

text \<open>
  \<open>save\<close>: \<open>open("w")\<close> empties the file before \<open>json.dump\<close> writes a single piece.
  When the dump goes through, the file holds the document. When it raises, the file
  keeps the pieces written so far: the beginning of a document (at most up to the
  piece that failed, never its closing bracket), which \<open>json.load\<close> rejects.
\<close>

definition write_document :: "path \<Rightarrow> pyval \<Rightarrow> world \<Rightarrow> world" where
  "write_document p data w =
     w\<lparr>files := (files w)(p \<mapsto> Document data), trace := trace w @ [Wrote p data]\<rparr>"

definition write_broken :: "path \<Rightarrow> world \<Rightarrow> world" where
  "write_broken p w =
     w\<lparr>files := (files w)(p \<mapsto> NotJson), trace := trace w @ [WriteFailed p]\<rparr>"

definition save :: "CaseRepository \<Rightarrow> ServiceCase list \<Rightarrow> world \<Rightarrow> outcome" where
  "save repo cases w =
     (let data = dump cases in
      case encode_error data of
        Some e \<Rightarrow> Inl (e, write_broken (file_path repo) w)
      | None \<Rightarrow> Inr (write_document (file_path repo) data w))"

definition print :: "message \<Rightarrow> world \<Rightarrow> world" where
  "print m w = w\<lparr>trace := trace w @ [Printed m]\<rparr>"

text \<open>
  \<open>_create_case_id\<close>. \<open>max\<close> compares the ids with \<open>>\<close> and the result is added to 1.
  Among the values of \<open>pyval\<close> only integers and booleans (Python's \<open>bool\<close> is a
  subclass of \<open>int\<close>) get through both steps; any other id raises \<open>TypeError\<close>, in
  the comparison or in the addition.
\<close>

fun as_int :: "pyval \<Rightarrow> int option" where
  "as_int (PInt i) = Some i"
| "as_int (PBool b) = Some (if b then 1 else 0)"
| "as_int _ = None"

fun ints_of :: "pyval list \<Rightarrow> int list option" where
  "ints_of [] = Some []"
| "ints_of (v # vs) =
     (case as_int v of
        None \<Rightarrow> None
      | Some i \<Rightarrow> (case ints_of vs of None \<Rightarrow> None | Some is \<Rightarrow> Some (i # is)))"

fun py_max :: "int list \<Rightarrow> error + int" where
  "py_max [] = Inl ValueError"
| "py_max (x # xs) = Inr (fold max xs x)"

definition create_case_id :: "ServiceCase list \<Rightarrow> error + int" where
  "create_case_id cases =
     (if cases = [] then Inr 1
      else case ints_of (map case_id cases) of
             None \<Rightarrow> Inl TypeError
           | Some ids \<Rightarrow> (case py_max ids of Inl e \<Rightarrow> Inl e | Inr m \<Rightarrow> Inr (m + 1)))"

section \<open>The commands\<close>

text \<open>
  What \<open>parse_args\<close> returns: the data file and the attributes of the chosen
  subcommand. An attribute of another subcommand is absent, and reading it raises
  \<open>AttributeError\<close>. The \<open>list\<close> subcommand, which only prints, is not modelled.
\<close>

datatype command =
    Init
  | Add pystr pystr pystr pystr pystr
  | Update int pystr "pystr option"

record Namespace =
  data_file :: path
  command :: command

definition handle_init :: "CaseRepository \<Rightarrow> world \<Rightarrow> outcome" where
  "handle_init repo w =
     (if exists_file w (file_path repo)
      then Inr (print (AlreadyExists (file_path repo)) w)
      else case save repo [] w of
             Inl ew \<Rightarrow> Inl ew
           | Inr w' \<Rightarrow> Inr (print (DatabaseCreated (file_path repo)) w'))"

definition handle_add ::
  "ServiceCase_class \<Rightarrow> Namespace \<Rightarrow> CaseRepository \<Rightarrow> world \<Rightarrow> outcome" where
  "handle_add cls args repo w =
     (case load cls repo w of
        Inl e \<Rightarrow> Inl (e, w)
      | Inr cases \<Rightarrow>
          (case create_case_id cases of
             Inl e \<Rightarrow> Inl (e, w)
           | Inr new_id \<Rightarrow>
               (case command args of
                  Add name email model serial issue \<Rightarrow>
                    (case ServiceCase_init cls
                            [(str ''case_id'', PInt new_id), (str ''customer_name'', PStr name),
                             (str ''contact_email'', PStr email),
                             (str ''product_model'', PStr model),
                             (str ''serial_number'', PStr serial),
                             (str ''issue_description'', PStr issue)] of
                       Inl e \<Rightarrow> Inl (e, w)
                     | Inr new_case \<Rightarrow>
                         (case save repo (cases @ [new_case]) w of
                            Inl ew \<Rightarrow> Inl ew
                          | Inr w' \<Rightarrow> Inr (print (CaseCreated (case_id new_case)) w')))
                | _ \<Rightarrow> Inl (AttributeError, w))))"

text \<open>\<open>case.case_id == args.case_id\<close>, the right-hand side an \<open>int\<close> (\<open>True == 1\<close>).\<close>

fun py_eq_int :: "pyval \<Rightarrow> int \<Rightarrow> bool" where
  "py_eq_int (PInt i) n = (i = n)"
| "py_eq_int (PBool b) n = ((if b then 1 else 0) = n)"
| "py_eq_int _ n = False"

text \<open>
  The loop of \<open>handle_update\<close>: \<open>seen\<close> are the cases already passed. At the first
  case with the id it updates that case in place and leaves the loop with the list to
  save and the updated case; \<open>None\<close> is the loop running to its end.
\<close>

fun update_loop ::
  "timestamp \<Rightarrow> int \<Rightarrow> pystr \<Rightarrow> pystr option \<Rightarrow> ServiceCase list \<Rightarrow> ServiceCase list
     \<Rightarrow> (ServiceCase list \<times> ServiceCase) option" where
  "update_loop now cid st notes seen [] = None"
| "update_loop now cid st notes seen (c # rest) =
     (if py_eq_int (case_id c) cid
      then (let c' = update_status now st notes c in Some (seen @ c' # rest, c'))
      else update_loop now cid st notes (seen @ [c]) rest)"

definition handle_update ::
  "ServiceCase_class \<Rightarrow> timestamp \<Rightarrow> Namespace \<Rightarrow> CaseRepository \<Rightarrow> world \<Rightarrow> outcome" where
  "handle_update cls now args repo w =
     (case load cls repo w of
        Inl e \<Rightarrow> Inl (e, w)
      | Inr cases \<Rightarrow>
          (case command args of
             Update cid st notes \<Rightarrow>
               (case update_loop now cid st notes [] cases of
                  Some (cases', c') \<Rightarrow>
                    (case save repo cases' w of
                       Inl ew \<Rightarrow> Inl ew
                     | Inr w' \<Rightarrow> Inr (print (CaseUpdated (case_id c') (status c')) w'))
                | None \<Rightarrow> Inr (print (CaseNotFound cid) w))
           | _ \<Rightarrow> Inl (AttributeError, w)))"

text \<open>
  The handlers are Python functions of one or of two parameters. \<open>main\<close> calls the
  handler that \<open>build_parser\<close> attached to the subcommand with two arguments; a
  function of one parameter called with two raises \<open>TypeError\<close>.
\<close>

datatype handler =
    Function1 "CaseRepository \<Rightarrow> world \<Rightarrow> outcome"
  | Function2 "Namespace \<Rightarrow> CaseRepository \<Rightarrow> world \<Rightarrow> outcome"

fun call2 :: "handler \<Rightarrow> Namespace \<Rightarrow> CaseRepository \<Rightarrow> world \<Rightarrow> outcome" where
  "call2 (Function2 f) args repo w = f args repo w"
| "call2 (Function1 f) args repo w = Inl (TypeError, w)"

fun func :: "ServiceCase_class \<Rightarrow> timestamp \<Rightarrow> command \<Rightarrow> handler" where
  "func cls now Init = Function1 handle_init"
| "func cls now (Add _ _ _ _ _) = Function2 (handle_add cls)"
| "func cls now (Update _ _ _) = Function2 (handle_update cls now)"

definition main :: "ServiceCase_class \<Rightarrow> timestamp \<Rightarrow> Namespace \<Rightarrow> world \<Rightarrow> outcome" where
  "main cls now args w =
     (let repo = \<lparr>file_path = data_file args\<rparr>
      in call2 (func cls now (command args)) args repo w)"

section \<open>Runs of the program\<close>

text \<open>
  Every invocation of the tool is a process of its own: it executes the class
  statement again, so each call comes with its own class object. \<open>add_all\<close> runs
  \<open>handle_add\<close> once for every entry of a list, in order, and stops at the first
  exception.
\<close>

type_synonym add_call = "ServiceCase_class \<times> pystr \<times> pystr \<times> pystr \<times> pystr \<times> pystr"

fun add_all :: "add_call list \<Rightarrow> CaseRepository \<Rightarrow> world \<Rightarrow> outcome" where
  "add_all [] repo w = Inr w"
| "add_all ((cls, n, e, m, s, d) # rest) repo w =
     (case handle_add cls \<lparr>data_file = file_path repo, command = Add n e m s d\<rparr> repo w of
        Inl ew \<Rightarrow> Inl ew
      | Inr w' \<Rightarrow> add_all rest repo w')"

text \<open>The arguments of a call that \<open>json.dump\<close> can write.\<close>

fun encodable_call :: "add_call \<Rightarrow> bool" where
  "encodable_call (cls, n, e, m, s, d) \<longleftrightarrow>
     encodable n \<and> encodable e \<and> encodable m \<and> encodable s \<and> encodable d"

fun printed :: "event list \<Rightarrow> message list" where
  "printed [] = []"
| "printed (Printed m # es) = m # printed es"
| "printed (Wrote p v # es) = printed es"
| "printed (WriteFailed p # es) = printed es"

text \<open>
  The worlds that the operations of the tool reach from an empty store: one in which
  \<open>load\<close> finds no cases.
\<close>

inductive reachable :: "CaseRepository \<Rightarrow> world \<Rightarrow> bool" for repo :: CaseRepository where
  empty: "load cls repo w = Inr [] \<Longrightarrow> reachable repo w"
| init: "reachable repo w \<Longrightarrow> handle_init repo w = Inr w' \<Longrightarrow> reachable repo w'"
| add: "reachable repo w \<Longrightarrow> handle_add cls args repo w = Inr w' \<Longrightarrow> reachable repo w'"
| update: "reachable repo w \<Longrightarrow> handle_update cls now args repo w = Inr w' \<Longrightarrow> reachable repo w'"

text \<open>
  The case that \<open>handle_add\<close> constructs for the id \<open>i\<close>: the six arguments it passes
  and the defaults of the class for the other four fields.
\<close>

definition new_case ::
  "ServiceCase_class \<Rightarrow> int \<Rightarrow> pystr \<Rightarrow> pystr \<Rightarrow> pystr \<Rightarrow> pystr \<Rightarrow> pystr \<Rightarrow> ServiceCase" where
  "new_case cls i n e m s d =
     \<lparr>case_id = PInt i, customer_name = PStr n, contact_email = PStr e,
      product_model = PStr m, serial_number = PStr s, issue_description = PStr d,
      status = PStr (str ''open''), created_at = PStr (str (default_created_at cls)),
      updated_at = PStr (str (default_updated_at cls)), resolution_notes = PStr []\<rparr>"

text \<open>A case that \<open>json.dump\<close> can write: the dump of its mapping raises nothing.\<close>

definition storable :: "ServiceCase \<Rightarrow> bool" where
  "storable c \<longleftrightarrow> encode_error (PDict (asdict c)) = None"

text \<open>The invariant of the reachable worlds: the ids are distinct integers, for
  whatever class object reads the file.\<close>

definition distinct_ids :: "CaseRepository \<Rightarrow> world \<Rightarrow> bool" where
  "distinct_ids repo w \<longleftrightarrow>
     (\<forall>cls. \<exists>cases ids. load cls repo w = Inr cases \<and> map case_id cases = map PInt ids
        \<and> distinct ids)"

text \<open>Concrete inputs, for the instances of the theorems below.\<close>

definition sample_class :: ServiceCase_class where
  "sample_class = class_ServiceCase ''2024-01-01T00:00:00.000001'' ''2024-01-01T00:00:00.000002''"

definition sample_repo :: CaseRepository where
  "sample_repo = \<lparr>file_path = ''sav_cases.json''\<rparr>"

definition no_files :: world where
  "no_files = \<lparr>files = Map.empty, trace = []\<rparr>"

definition sample_case :: "int \<Rightarrow> ServiceCase" where
  "sample_case i =
     new_case sample_class i (str ''Jane Doe'') (str ''jane@x.com'') (str ''TD-50'')
       (str ''SN123'') (str ''No sound from pads'')"

definition sample_call :: add_call where
  "sample_call =
     (sample_class, str ''Jane Doe'', str ''jane@x.com'', str ''TD-50'', str ''SN123'',
      str ''No sound from pads'')"

definition sample_add :: Namespace where
  "sample_add =
     \<lparr>data_file = ''sav_cases.json'',
      command = Add (str ''Jane Doe'') (str ''jane@x.com'') (str ''TD-50'') (str ''SN123'')
        (str ''No sound from pads'')\<rparr>"

text \<open>
  A customer name that is one lone surrogate, U+DC80: what Python makes of the single
  byte 0x80 on the command line.
\<close>

definition bad_name :: pystr where
  "bad_name = [56448]"

definition bad_call :: add_call where
  "bad_call =
     (sample_class, bad_name, str ''jane@x.com'', str ''TD-50'', str ''SN123'',
      str ''No sound from pads'')"

definition bad_case :: "int \<Rightarrow> ServiceCase" where
  "bad_case i =
     new_case sample_class i bad_name (str ''jane@x.com'') (str ''TD-50'')
       (str ''SN123'') (str ''No sound from pads'')"

text \<open>What an outcome raised, and the world it left.\<close>

fun raised :: "outcome \<Rightarrow> error option" where
  "raised (Inl (e, w)) = Some e"
| "raised (Inr w) = None"

fun world_of :: "outcome \<Rightarrow> world" where
  "world_of (Inl (e, w)) = w"
| "world_of (Inr w) = w"

section \<open>Strings and the JSON library\<close>


lemma str_eq_iff [simp]: "str a = str b \<longleftrightarrow> a = b"
  by (simp add: str_def inj_map_eq_map [OF inj_of_char])

lemma of_char_less_256: "of_char c < (256::nat)"
proof -
  have "(of_char c :: nat) mod 256 < 256" by simp
  then show ?thesis by (simp only: of_char_mod_256)
qed

lemma encodable_str [simp]: "encodable (str s)"
proof -
  have "\<not> is_surrogate (of_char c)" for c
    unfolding is_surrogate_def using of_char_less_256 [of c] by linarith
  then show ?thesis by (simp add: encodable_def str_def list_all_iff)
qed

lemma encodable_Nil [simp]: "encodable []"
  by (simp add: encodable_def)

lemma first_error_None: "first_error es = None \<longleftrightarrow> (\<forall>e \<in> set es. e = None)"
  by (induction es rule: first_error.induct) simp_all

lemma encode_then_decode: "encode_error v = None \<Longrightarrow> decode_error v = None"
proof (induction v)
  case (PList vs)
  then show ?case by (simp add: first_error_None)
next
  case (PDict kvs)
  then show ?case by (fastforce simp: first_error_None)
qed simp_all

lemma encode_error_dump: "encode_error (dump cases) = None \<longleftrightarrow> list_all storable cases"
  by (simp add: dump_def first_error_None storable_def list_all_iff del: encode_error.simps(6))

lemma storable_iff:
  "storable c \<longleftrightarrow>
     encode_error (case_id c) = None \<and> encode_error (customer_name c) = None \<and>
     encode_error (contact_email c) = None \<and> encode_error (product_model c) = None \<and>
     encode_error (serial_number c) = None \<and> encode_error (issue_description c) = None \<and>
     encode_error (status c) = None \<and> encode_error (created_at c) = None \<and>
     encode_error (updated_at c) = None \<and> encode_error (resolution_notes c) = None"
  by (simp add: storable_def asdict_def first_error_None str_error_def)

lemma storable_new_case:
  "storable (new_case cls i n e m s d) \<longleftrightarrow>
     int_repr_ok i \<and> encodable n \<and> encodable e \<and> encodable m \<and> encodable s \<and> encodable d"
  by (simp add: storable_iff new_case_def str_error_def int_error_def)

lemma ServiceCase_init_asdict: "ServiceCase_init cls (asdict c) = Inr c"
  by (simp add: ServiceCase_init_def asdict_def field_names_def get_default_def)

lemma traverse_from_dict_dump:
  "traverse (from_dict cls) (map (\<lambda>c. PDict (asdict c)) cases) = Inr cases"
  by (induction cases) (simp_all add: ServiceCase_init_asdict)

lemma save_storable:
  "list_all storable cases \<Longrightarrow>
     save repo cases w = Inr (write_document (file_path repo) (dump cases) w)"
proof -
  assume "list_all storable cases"
  then have "encode_error (dump cases) = None" by (simp add: encode_error_dump)
  then show ?thesis by (simp add: save_def Let_def)
qed

lemma save_Inr:
  "save repo cases w = Inr w' \<Longrightarrow>
     list_all storable cases \<and> w' = write_document (file_path repo) (dump cases) w"
  by (auto simp: save_def Let_def encode_error_dump [symmetric] split: option.splits)

lemma save_Inl:
  "save repo cases w = Inl (e, w') \<Longrightarrow>
     encode_error (dump cases) = Some e \<and> w' = write_broken (file_path repo) w"
  by (auto simp: save_def Let_def split: option.splits)

lemma load_write_document:
  "list_all storable cases \<Longrightarrow>
     load cls repo (write_document (file_path repo) (dump cases) w) = Inr cases"
proof -
  assume "list_all storable cases"
  then have "decode_error (dump cases) = None"
    by (simp add: encode_then_decode encode_error_dump)
  then show ?thesis
    by (simp add: load_def write_document_def) (simp add: dump_def traverse_from_dict_dump)
qed

lemma load_write_broken:
  "load cls repo (write_broken (file_path repo) w) = Inl JSONDecodeError"
  by (simp add: load_def write_broken_def)

lemma load_print: "load cls repo (print m w) = load cls repo w"
  by (simp add: load_def print_def)



section \<open>The handlers\<close>


lemma ints_of_PInt: "ints_of (map PInt ids) = Some ids"
  by (induction ids) simp_all

lemma py_max_Max: "ids \<noteq> [] \<Longrightarrow> py_max ids = Inr (Max (set ids))"
proof (cases ids)
  case Nil
  then show "ids \<noteq> [] \<Longrightarrow> ?thesis" by simp
next
  case (Cons x xs)
  then show ?thesis using Max.set_eq_fold [of x xs] by simp
qed

lemma create_case_id_ints:
  "cases \<noteq> [] \<Longrightarrow> map case_id cases = map PInt ids
     \<Longrightarrow> create_case_id cases = Inr (Max (set ids) + 1)"
proof -
  assume ne: "cases \<noteq> []" and ids: "map case_id cases = map PInt ids"
  from ne ids have "ids \<noteq> []" by auto
  then show ?thesis
    using ne ids by (simp add: create_case_id_def ints_of_PInt py_max_Max)
qed

lemma traverse_Nil: "traverse f xs = Inr [] \<Longrightarrow> xs = []"
  by (cases xs) (auto split: sum.splits)

lemma load_empty_any_class: "load cls repo w = Inr [] \<Longrightarrow> load cls' repo w = Inr []"
  by (auto simp: load_def split: option.splits file_content.splits sum.splits dest!: traverse_Nil)


lemma Max_upto: "1 \<le> k \<Longrightarrow> Max (set [1..k]) = (k::int)"
  by (simp add: Max_eq_iff)

lemma init_six:
  "ServiceCase_init cls
     [(str ''case_id'', i), (str ''customer_name'', n), (str ''contact_email'', e),
      (str ''product_model'', m), (str ''serial_number'', s),
      (str ''issue_description'', d)] =
   Inr \<lparr>case_id = i, customer_name = n, contact_email = e, product_model = m,
        serial_number = s, issue_description = d, status = PStr (str ''open''),
        created_at = PStr (str (default_created_at cls)),
        updated_at = PStr (str (default_updated_at cls)), resolution_notes = PStr []\<rparr>"
  by (simp add: ServiceCase_init_def field_names_def get_default_def)

lemma handle_add_save:
  assumes "load cls repo w = Inr cases" and "create_case_id cases = Inr i"
    and "command args = Add n e m s d"
  shows "handle_add cls args repo w =
           (case save repo (cases @ [new_case cls i n e m s d]) w of
              Inl ew \<Rightarrow> Inl ew
            | Inr w' \<Rightarrow> Inr (print (CaseCreated (PInt i)) w'))"
  using assms by (simp add: handle_add_def init_six new_case_def split: sum.split)

lemma handle_add_result:
  assumes "load cls repo w = Inr cases" and "create_case_id cases = Inr i"
    and "command args = Add n e m s d"
    and "list_all storable (cases @ [new_case cls i n e m s d])"
  shows "handle_add cls args repo w =
           Inr (print (CaseCreated (PInt i))
                 (write_document (file_path repo) (dump (cases @ [new_case cls i n e m s d])) w))"
  by (simp add: handle_add_save [OF assms(1-3)] save_storable [OF assms(4)])

lemma handle_add_Inr:
  assumes "handle_add cls args repo w = Inr w'"
  obtains cases i n e m s d where "load cls repo w = Inr cases"
    and "create_case_id cases = Inr i" and "command args = Add n e m s d"
    and "list_all storable (cases @ [new_case cls i n e m s d])"
    and "w' = print (CaseCreated (PInt i))
              (write_document (file_path repo) (dump (cases @ [new_case cls i n e m s d])) w)"
proof -
  from assms obtain cases where l: "load cls repo w = Inr cases"
    by (auto simp: handle_add_def split: sum.splits)
  with assms obtain i where i: "create_case_id cases = Inr i"
    by (auto simp: handle_add_def split: sum.splits)
  with assms l obtain n e m s d where c: "command args = Add n e m s d"
    by (auto simp: handle_add_def split: command.splits)
  from assms obtain w1 where s: "save repo (cases @ [new_case cls i n e m s d]) w = Inr w1"
    and w': "w' = print (CaseCreated (PInt i)) w1"
    unfolding handle_add_save [OF l i c] by (auto split: sum.splits)
  from save_Inr [OF s] w' l i c show ?thesis by (auto intro: that)
qed


lemma update_status_case_id [simp]: "case_id (update_status now st notes c) = case_id c"
  by (simp add: update_status_def Let_def split: option.splits)

lemma update_status_status [simp]: "status (update_status now st notes c) = PStr st"
  by (simp add: update_status_def Let_def split: option.splits)

lemma update_loop_None:
  "\<forall>x \<in> set cs. \<not> py_eq_int (case_id x) cid \<Longrightarrow> update_loop now cid st notes seen cs = None"
  by (induction cs arbitrary: seen) simp_all


lemma update_loop_ids:
  "update_loop now cid st notes seen cs = Some (cs', c') \<Longrightarrow>
     map case_id cs' = map case_id (seen @ cs)"
  by (induction cs arbitrary: seen) (auto simp: Let_def split: if_splits)

lemma py_eq_int_typed: "is_int v \<Longrightarrow> py_eq_int v n \<longleftrightarrow> v = PInt n"
  by (cases v) auto

lemma handle_update_world:
  assumes "handle_update cls now args repo w = Inr w'" and "load cls repo w = Inr cases"
  shows "(\<exists>cid. w' = print (CaseNotFound cid) w) \<or>
         (\<exists>cases' m. w' = print m (write_document (file_path repo) (dump cases') w) \<and>
            list_all storable cases' \<and> map case_id cases' = map case_id cases)"
proof -
  from assms obtain cid st nts where cmd: "command args = Update cid st nts"
    by (auto simp: handle_update_def split: command.splits)
  show ?thesis
  proof (cases "update_loop now cid st nts [] cases")
    case None
    with assms cmd have "w' = print (CaseNotFound cid) w" by (simp add: handle_update_def)
    then show ?thesis by blast
  next
    case (Some r)
    obtain cases' c' where r: "r = (cases', c')" by (cases r)
    from Some r have "map case_id cases' = map case_id cases"
      using update_loop_ids [of now cid st nts "[]" cases cases' c'] by simp
    moreover from assms cmd Some r obtain w1 where "save repo cases' w = Inr w1"
      and "w' = print (CaseUpdated (case_id c') (status c')) w1"
      by (auto simp: handle_update_def split: sum.splits)
    ultimately show ?thesis using save_Inr [of repo cases' w w1] by blast
  qed
qed

lemma handle_update_Inr:
  assumes "handle_update cls now args repo w = Inr w'" and "load cls repo w = Inr cases"
  shows "\<exists>cases'. load cls repo w' = Inr cases' \<and> map case_id cases' = map case_id cases"
  using handle_update_world [OF assms] assms(2)
  by (auto simp: load_print load_write_document)

lemma save_Nil: "save repo [] w = Inr (write_document (file_path repo) (dump []) w)"
  by (simp add: save_storable)

lemma handle_init_load:
  assumes "handle_init repo w = Inr w'" and "load cls repo w = Inr cases"
  shows "load cls repo w' = Inr cases"
proof (cases "exists_file w (file_path repo)")
  case True
  with assms show ?thesis by (auto simp: handle_init_def load_print)
next
  case False
  then have "load cls repo w = Inr []" by (simp add: exists_file_def load_def)
  with assms False show ?thesis
    using load_write_document [of "[]" cls repo w]
    by (auto simp: handle_init_def save_Nil load_print)
qed


lemma create_case_id_greater:
  assumes "map case_id cases = map PInt ids"
  shows "\<exists>i. create_case_id cases = Inr i \<and> (\<forall>j \<in> set ids. j < i)"
proof (cases "cases = []")
  case True
  with assms show ?thesis by (simp add: create_case_id_def)
next
  case False
  with assms have "create_case_id cases = Inr (Max (set ids) + 1)"
    by (simp add: create_case_id_ints)
  moreover have "j < Max (set ids) + 1" if "j \<in> set ids" for j
    using Max_ge [OF finite_set that] by linarith
  ultimately show ?thesis by blast
qed


lemma reachable_distinct_ids: "reachable repo w \<Longrightarrow> distinct_ids repo w"
proof (induction rule: reachable.induct)
  case (empty cls w)
  then have "load cls' repo w = Inr []" for cls'
    by (rule load_empty_any_class)
  then show ?case by (simp add: distinct_ids_def)
next
  case (init w w')
  then show ?case
    unfolding distinct_ids_def by (metis handle_init_load)
next
  case (add w cls args w')
  from add.hyps(2) obtain cases i n e m s d where
    l: "load cls repo w = Inr cases" and i: "create_case_id cases = Inr i"
    and st: "list_all storable (cases @ [new_case cls i n e m s d])"
    and w': "w' = print (CaseCreated (PInt i))
       (write_document (file_path repo) (dump (cases @ [new_case cls i n e m s d])) w)"
    by (rule handle_add_Inr)
  from add.IH l obtain ids where ids: "map case_id cases = map PInt ids" and d: "distinct ids"
    unfolding distinct_ids_def by (metis sum.inject(2))
  from create_case_id_greater [OF ids] i have "\<forall>j \<in> set ids. j < i" by simp
  then have "distinct (ids @ [i])" using d by auto
  moreover have "map case_id (cases @ [new_case cls i n e m s d]) = map PInt (ids @ [i])"
    using ids by (simp add: new_case_def)
  ultimately show ?case
    unfolding distinct_ids_def w' load_print load_write_document [OF st] by blast
next
  case (update w cls now args w')
  from update.IH obtain cases ids where l: "load cls repo w = Inr cases"
    and ids: "map case_id cases = map PInt ids" and d: "distinct ids"
    unfolding distinct_ids_def by blast
  from handle_update_world [OF update.hyps(2) l] show ?case
  proof (elim disjE exE conjE)
    fix cid assume "w' = print (CaseNotFound cid) w"
    with update.IH show ?thesis by (simp add: distinct_ids_def load_print)
  next
    fix cases' m
    assume "w' = print m (write_document (file_path repo) (dump cases') w)"
      and "list_all storable cases'" and "map case_id cases' = map case_id cases"
    with ids d show ?thesis
      unfolding distinct_ids_def by (auto simp: load_print load_write_document)
  qed
qed




lemma printed_append: "printed (xs @ ys) = printed xs @ printed ys"
  by (induction xs rule: printed.induct) simp_all

lemma create_case_id_upto:
  assumes "map case_id cases = map PInt [1..int k]"
  shows "create_case_id cases = Inr (int k + 1)"
proof (cases k)
  case 0
  with assms show ?thesis by (simp add: create_case_id_def)
next
  case (Suc j)
  with assms have "cases \<noteq> []" by (auto simp: upto_rec1 [of 1])
  then have "create_case_id cases = Inr (Max (set [1..int k]) + 1)"
    using assms by (rule create_case_id_ints)
  moreover have "Max (set [1..int k]) = int k"
    using Suc by (intro Max_upto) simp
  ultimately show ?thesis by (simp only:)
qed


lemma handle_init_creates:
  "\<not> exists_file w (file_path repo) \<Longrightarrow>
     handle_init repo w =
       Inr (print (DatabaseCreated (file_path repo))
             (write_document (file_path repo) (PList []) w))"
  by (simp add: handle_init_def save_Nil dump_def)

lemma handle_init_keeps:
  "exists_file w (file_path repo) \<Longrightarrow>
     handle_init repo w = Inr (print (AlreadyExists (file_path repo)) w)"
  by (simp add: handle_init_def)

lemma main_Init: "command args = Init \<Longrightarrow> main cls now args w = Inl (TypeError, w)"
  by (simp add: main_def)



section \<open>Consecutive adds\<close>


lemma int_repr_limit_ge: "10 \<le> int_repr_limit"
  unfolding int_repr_limit_def by (rule self_le_power) simp_all

lemma int_repr_ok_small: "\<bar>i\<bar> < 10 \<Longrightarrow> int_repr_ok i"
  using int_repr_limit_ge by (simp add: int_repr_ok_def)

lemma int_repr_ok_mono: "0 \<le> i \<Longrightarrow> i \<le> j \<Longrightarrow> int_repr_ok j \<Longrightarrow> int_repr_ok i"
  by (simp add: int_repr_ok_def)

lemma upto_Suc: "map PInt [1..int k] @ [PInt (int k + 1)] = map PInt [1..int (Suc k)]"
  by (simp add: upto_rec2 [of 1 "1 + int k"] add.commute)

lemma add_all_Cons_Inr:
  assumes "add_all ((cls, n, e, m, s, d) # rest) repo w = Inr w'"
  obtains w1 where
    "handle_add cls \<lparr>data_file = file_path repo, command = Add n e m s d\<rparr> repo w = Inr w1"
    and "add_all rest repo w1 = Inr w'"
  using assms by (auto split: sum.splits)

lemma add_all_returns_ids:
  assumes "\<forall>cls. \<exists>cases. load cls repo w = Inr cases \<and> map case_id cases = map PInt [1..int k]"
    and "add_all calls repo w = Inr w'"
  shows "(\<forall>cls. \<exists>cases. load cls repo w' = Inr cases \<and>
             map case_id cases = map PInt [1..int (k + length calls)]) \<and>
         printed (trace w') =
           printed (trace w) @ map (\<lambda>i. CaseCreated (PInt i)) [int k + 1..int (k + length calls)]"
  using assms
proof (induction calls arbitrary: w k)
  case Nil
  then show ?case by simp
next
  case (Cons call rest)
  obtain cls n e m s d where call: "call = (cls, n, e, m, s, d)" by (cases call)
  from Cons.prems(2) [unfolded call] obtain w1 where
    h: "handle_add cls \<lparr>data_file = file_path repo, command = Add n e m s d\<rparr> repo w = Inr w1"
    and r: "add_all rest repo w1 = Inr w'"
    by (rule add_all_Cons_Inr)
  from h obtain cases i n' e' m' s' d' where l: "load cls repo w = Inr cases"
    and i: "create_case_id cases = Inr i"
    and st: "list_all storable (cases @ [new_case cls i n' e' m' s' d'])"
    and w1: "w1 = print (CaseCreated (PInt i))
       (write_document (file_path repo) (dump (cases @ [new_case cls i n' e' m' s' d'])) w)"
    by (rule handle_add_Inr)
  from Cons.prems(1) l have ids: "map case_id cases = map PInt [1..int k]"
    by (metis sum.inject(2))
  from create_case_id_upto [OF ids] i have i': "i = int k + 1" by simp
  have "map case_id (cases @ [new_case cls i n' e' m' s' d']) = map PInt [1..int (Suc k)]"
    using ids upto_Suc [of k] by (simp add: new_case_def i')
  then have inv1: "\<forall>cls'. \<exists>cases'. load cls' repo w1 = Inr cases' \<and>
      map case_id cases' = map PInt [1..int (Suc k)]"
    by (simp add: w1 load_print load_write_document [OF st])
  from Cons.IH [OF inv1 r] have
    inv': "\<forall>cls. \<exists>cases. load cls repo w' = Inr cases \<and>
        map case_id cases = map PInt [1..int (Suc k + length rest)]"
    and p: "printed (trace w') = printed (trace w1) @
        map (\<lambda>i. CaseCreated (PInt i)) [int (Suc k) + 1..int (Suc k + length rest)]"
    by blast+
  have p1: "printed (trace w1) = printed (trace w) @ [CaseCreated (PInt (int k + 1))]"
    by (simp add: w1 i' print_def write_document_def printed_append)
  have "[int k + 1..int (k + length (call # rest))] =
        (int k + 1) # [int (Suc k) + 1..int (Suc k + length rest)]"
  proof -
    have "int k + 1 \<le> int (k + length (call # rest))" by simp
    from upto_rec1 [OF this] show ?thesis by (simp add: algebra_simps)
  qed
  with inv' p p1 show ?case by simp
qed

lemma add_all_succeeds:
  assumes "\<forall>cls. \<exists>cases. load cls repo w = Inr cases \<and>
             map case_id cases = map PInt [1..int k] \<and> list_all storable cases"
    and "list_all encodable_call calls" and "int_repr_ok (int (k + length calls))"
  shows "\<exists>w'. add_all calls repo w = Inr w'"
  using assms
proof (induction calls arbitrary: w k)
  case Nil
  then show ?case by simp
next
  case (Cons call rest)
  obtain cls n e m s d where call: "call = (cls, n, e, m, s, d)" by (cases call)
  from Cons.prems(1) obtain cases where l: "load cls repo w = Inr cases"
    and ids: "map case_id cases = map PInt [1..int k]" and sc: "list_all storable cases"
    by blast
  define c where "c = new_case cls (int k + 1) n e m s d"
  have "int_repr_ok (int k + 1)"
  proof (rule int_repr_ok_mono)
    show "int_repr_ok (int (k + length (call # rest)))" by (rule Cons.prems(3))
  qed simp_all
  with Cons.prems(2) call have "storable c"
    by (simp add: c_def storable_new_case)
  with sc have st: "list_all storable (cases @ [c])" by simp
  define w1 where "w1 = print (CaseCreated (PInt (int k + 1)))
     (write_document (file_path repo) (dump (cases @ [c])) w)"
  have step: "handle_add cls \<lparr>data_file = file_path repo, command = Add n e m s d\<rparr> repo w = Inr w1"
    unfolding w1_def c_def
    by (rule handle_add_result [OF l create_case_id_upto [OF ids] _ st [unfolded c_def]]) simp
  have "map case_id (cases @ [c]) = map PInt [1..int (Suc k)]"
    using ids upto_Suc [of k] by (simp add: c_def new_case_def)
  with st have inv1: "\<forall>cls'. \<exists>cases'. load cls' repo w1 = Inr cases' \<and>
      map case_id cases' = map PInt [1..int (Suc k)] \<and> list_all storable cases'"
    by (simp add: w1_def load_print load_write_document)
  from Cons.prems have "list_all encodable_call rest" "int_repr_ok (int (Suc k + length rest))"
    by simp_all
  from Cons.IH [OF inv1 this] step call show ?case by simp
qed



section \<open>Saves that raise, and the sample inputs\<close>


lemma first_error_append:
  "\<forall>e \<in> set xs. e = None \<Longrightarrow> first_error (xs @ ys) = first_error ys"
  by (induction xs) simp_all

lemma encode_error_dump_first:
  assumes "list_all storable cs" and "encode_error (PDict (asdict b)) = Some e"
  shows "encode_error (dump (cs @ b # rest)) = Some e"
proof -
  from assms(1) have "\<forall>x \<in> set (map (\<lambda>c. encode_error (PDict (asdict c))) cs). x = None"
    by (auto simp: list_all_iff storable_def)
  from first_error_append [OF this] assms(2) show ?thesis
    by (simp add: dump_def comp_def del: encode_error.simps(6))
qed

lemma save_raises:
  assumes "list_all storable cs" and "encode_error (PDict (asdict b)) = Some e"
  shows "save repo (cs @ b # rest) w = Inl (e, write_broken (file_path repo) w)"
  by (simp add: save_def Let_def encode_error_dump_first [OF assms])

lemma well_typed_new_case [simp]: "well_typed (new_case cls i n e m s d)"
  by (simp add: well_typed_def new_case_def)

lemma case_id_new_case [simp]: "case_id (new_case cls i n e m s d) = PInt i"
  by (simp add: new_case_def)

lemma storable_sample_case: "\<bar>i\<bar> < 10 \<Longrightarrow> storable (sample_case i)"
  by (simp add: sample_case_def storable_new_case int_repr_ok_small)

lemma not_encodable_bad_name: "\<not> encodable bad_name"
  by (simp add: bad_name_def encodable_def is_surrogate_def)

lemma encode_error_bad_case:
  "\<bar>i\<bar> < 10 \<Longrightarrow> encode_error (PDict (asdict (bad_case i))) = Some UnicodeEncodeError"
  by (simp add: bad_case_def new_case_def asdict_def str_error_def int_error_def
      int_repr_ok_small not_encodable_bad_name)


lemma load_no_files: "load cls sample_repo no_files = Inr []"
  by (simp add: load_def no_files_def)

lemma storable_typed:
  "storable \<lparr>case_id = PInt i, customer_name = PStr n, contact_email = PStr e,
      product_model = PStr m, serial_number = PStr s, issue_description = PStr d,
      status = PStr st, created_at = PStr ca, updated_at = PStr ua,
      resolution_notes = PStr r\<rparr> \<longleftrightarrow>
   int_repr_ok i \<and> encodable n \<and> encodable e \<and> encodable m \<and> encodable s \<and>
   encodable d \<and> encodable st \<and> encodable ca \<and> encodable ua \<and> encodable r"
  by (simp add: storable_iff str_error_def int_error_def)

section \<open>The id-assignment policy\<close>

text \<open>
  Claim C1, as amended. The next case id is 1 for the empty collection and otherwise
  the maximum of the existing ids plus 1 (the ids being integers, as annotated).
  Consequently any N consecutive runs of \<open>handle_add\<close> that all return, on a store in
  which \<open>load\<close> finds no cases, print the ids 1, ..., N in this order and leave a
  collection whose ids are 1, ..., N in this order. They all return when no argument
  holds a lone surrogate and N has at most 4300 digits.
\<close>

theorem next_case_id_policy:
  "create_case_id [] = Inr 1 \<and>
   (cases \<noteq> [] \<and> map case_id cases = map PInt ids \<longrightarrow>
      create_case_id cases = Inr (Max (set ids) + 1)) \<and>
   (load cls repo w = Inr [] \<and> add_all calls repo w = Inr w' \<longrightarrow>
      (\<exists>cases'. load cls repo w' = Inr cases' \<and>
         map case_id cases' = map PInt [1..int (length calls)]) \<and>
      printed (trace w') =
        printed (trace w) @ map (\<lambda>i. CaseCreated (PInt i)) [1..int (length calls)]) \<and>
   (load cls repo w = Inr [] \<and> list_all encodable_call calls \<and>
      int_repr_ok (int (length calls)) \<longrightarrow>
      (\<exists>w''. add_all calls repo w = Inr w''))"
proof (intro conjI impI)
  show "create_case_id [] = Inr 1" by (simp add: create_case_id_def)
next
  assume "cases \<noteq> [] \<and> map case_id cases = map PInt ids"
  then show "create_case_id cases = Inr (Max (set ids) + 1)"
    by (simp add: create_case_id_ints)
next
  assume a: "load cls repo w = Inr [] \<and> add_all calls repo w = Inr w'"
  then have "\<forall>cls'. \<exists>cs. load cls' repo w = Inr cs \<and> map case_id cs = map PInt [1..int 0]"
    by (auto dest: load_empty_any_class)
  from add_all_returns_ids [OF this, of calls w'] a
  have r: "(\<forall>cls. \<exists>cases. load cls repo w' = Inr cases \<and>
             map case_id cases = map PInt [1..int (length calls)]) \<and>
         printed (trace w') =
           printed (trace w) @ map (\<lambda>i. CaseCreated (PInt i)) [1..int (length calls)]"
    by simp
  from r show "\<exists>cases'. load cls repo w' = Inr cases' \<and>
         map case_id cases' = map PInt [1..int (length calls)]"
    by blast
  from r show "printed (trace w') =
        printed (trace w) @ map (\<lambda>i. CaseCreated (PInt i)) [1..int (length calls)]"
    by blast
next
  assume a: "load cls repo w = Inr [] \<and> list_all encodable_call calls \<and>
      int_repr_ok (int (length calls))"
  then have "\<forall>cls'. \<exists>cs. load cls' repo w = Inr cs \<and> map case_id cs = map PInt [1..int 0] \<and>
      list_all storable cs"
    by (auto dest: load_empty_any_class)
  from add_all_succeeds [OF this, of calls] a
  show "\<exists>w''. add_all calls repo w = Inr w''" by simp
qed

theorem next_case_id_policy_witness:
  "create_case_id [sample_case 3, sample_case 1, sample_case 4] = Inr 5 \<and>
   load sample_class sample_repo no_files = Inr [] \<and>
   list_all encodable_call [sample_call, sample_call, sample_call] \<and>
   int_repr_ok (int (length [sample_call, sample_call, sample_call])) \<and>
   (\<exists>w'. add_all [sample_call, sample_call, sample_call] sample_repo no_files = Inr w' \<and>
      (\<exists>cases'. load sample_class sample_repo w' = Inr cases' \<and>
         map case_id cases' = [PInt 1, PInt 2, PInt 3]) \<and>
      printed (trace w') = [CaseCreated (PInt 1), CaseCreated (PInt 2), CaseCreated (PInt 3)])"
proof -
  let ?calls = "[sample_call, sample_call, sample_call]"
  have l: "load sample_class sample_repo no_files = Inr []" by (rule load_no_files)
  have ids: "[sample_case 3, sample_case 1, sample_case 4] \<noteq> [] \<and>
      map case_id [sample_case 3, sample_case 1, sample_case 4] = map PInt [3, 1, 4]"
    by (simp add: sample_case_def)
  have enc: "list_all encodable_call ?calls" by (simp add: sample_call_def)
  have lim: "int_repr_ok (int (length ?calls))" by (simp add: int_repr_ok_small)
  have u: "[1..int (length ?calls)] = [1, 2, 3]" by (simp add: upto_rec1)
  note T2 = next_case_id_policy [of "[sample_case 3, sample_case 1, sample_case 4]" "[3, 1, 4]"
      sample_class sample_repo no_files ?calls no_files, THEN conjunct2, THEN conjunct1]
  from T2 ids have "create_case_id [sample_case 3, sample_case 1, sample_case 4] =
      Inr (Max (set [3, 1, 4]) + 1)"
    by (rule mp)
  then have five: "create_case_id [sample_case 3, sample_case 1, sample_case 4] = Inr 5"
    by simp
  note T4 = next_case_id_policy [of "[]" "[]" sample_class sample_repo no_files ?calls no_files,
      THEN conjunct2, THEN conjunct2, THEN conjunct2]
  from l enc lim have "load sample_class sample_repo no_files = Inr [] \<and>
      list_all encodable_call ?calls \<and> int_repr_ok (int (length ?calls))"
    by (intro conjI)
  with T4 have "\<exists>w''. add_all ?calls sample_repo no_files = Inr w''" by (rule mp)
  then obtain w' where r: "add_all ?calls sample_repo no_files = Inr w'" ..
  note T3 = next_case_id_policy [of "[]" "[]" sample_class sample_repo no_files ?calls w',
      THEN conjunct2, THEN conjunct2, THEN conjunct1]
  from l r have "load sample_class sample_repo no_files = Inr [] \<and>
      add_all ?calls sample_repo no_files = Inr w'"
    by (intro conjI)
  with T3 have "(\<exists>cases'. load sample_class sample_repo w' = Inr cases' \<and>
         map case_id cases' = map PInt [1..int (length ?calls)]) \<and>
      printed (trace w') =
        printed (trace no_files) @ map (\<lambda>i. CaseCreated (PInt i)) [1..int (length ?calls)]"
    by (rule mp)
  then have x: "(\<exists>cases'. load sample_class sample_repo w' = Inr cases' \<and>
         map case_id cases' = [PInt 1, PInt 2, PInt 3]) \<and>
      printed (trace w') = [CaseCreated (PInt 1), CaseCreated (PInt 2), CaseCreated (PInt 3)]"
    unfolding u by (simp add: no_files_def)
  from r x have "\<exists>w'. add_all ?calls sample_repo no_files = Inr w' \<and>
      (\<exists>cases'. load sample_class sample_repo w' = Inr cases' \<and>
         map case_id cases' = [PInt 1, PInt 2, PInt 3]) \<and>
      printed (trace w') = [CaseCreated (PInt 1), CaseCreated (PInt 2), CaseCreated (PInt 3)]"
    by (intro exI [of _ w'] conjI) (erule conjunct1 conjunct2 | assumption)+
  with five l enc lim show ?thesis by (intro conjI)
qed

text \<open>
  The claim as it was stated, for every run of N adds, fails: the second of these two
  adds has a customer name that is a lone surrogate. Its save raises
  \<open>UnicodeEncodeError\<close> after the file has been emptied; only the id 1 was assigned,
  and the file that is left cannot be loaded.
\<close>

theorem next_case_id_policy_counterexample:
  "load sample_class sample_repo no_files = Inr [] \<and>
   raised (add_all [sample_call, bad_call] sample_repo no_files) = Some UnicodeEncodeError \<and>
   load sample_class sample_repo (world_of (add_all [sample_call, bad_call] sample_repo no_files)) =
     Inl JSONDecodeError \<and>
   printed (trace (world_of (add_all [sample_call, bad_call] sample_repo no_files))) =
     [CaseCreated (PInt 1)]"
proof -
  define w1 where "w1 = print (CaseCreated (PInt 1))
     (write_document (file_path sample_repo) (dump [sample_case 1]) no_files)"
  have l0: "load sample_class sample_repo no_files = Inr []" by (rule load_no_files)
  have st1: "list_all storable [sample_case 1]" by (simp add: storable_sample_case)
  have a1: "handle_add sample_class
      \<lparr>data_file = file_path sample_repo,
        command = Add (str ''Jane Doe'') (str ''jane@x.com'') (str ''TD-50'') (str ''SN123'')
          (str ''No sound from pads'')\<rparr> sample_repo no_files = Inr w1"
    using handle_add_result [OF l0, of 1 _ "str ''Jane Doe''" "str ''jane@x.com''" "str ''TD-50''"
        "str ''SN123''" "str ''No sound from pads''"] st1
    by (simp add: w1_def sample_case_def create_case_id_def)
  have l1: "load sample_class sample_repo w1 = Inr [sample_case 1]"
    by (simp add: w1_def load_print load_write_document [OF st1])
  have i2: "create_case_id [sample_case 1] = Inr 2"
    by (simp add: create_case_id_def sample_case_def)
  have s2: "save sample_repo ([sample_case 1] @ bad_case 2 # []) w1 =
      Inl (UnicodeEncodeError, write_broken (file_path sample_repo) w1)"
    by (rule save_raises [OF st1 encode_error_bad_case]) simp
  have a2: "handle_add sample_class
      \<lparr>data_file = file_path sample_repo,
        command = Add bad_name (str ''jane@x.com'') (str ''TD-50'') (str ''SN123'')
          (str ''No sound from pads'')\<rparr> sample_repo w1 =
      Inl (UnicodeEncodeError, write_broken (file_path sample_repo) w1)"
    using handle_add_save [OF l1 i2, of _ bad_name "str ''jane@x.com''" "str ''TD-50''"
        "str ''SN123''" "str ''No sound from pads''"] s2
    by (simp add: bad_case_def)
  have r: "add_all [sample_call, bad_call] sample_repo no_files =
      Inl (UnicodeEncodeError, write_broken (file_path sample_repo) w1)"
    by (simp add: sample_call_def bad_call_def a1 a2)
  have p: "printed (trace (write_broken (file_path sample_repo) w1)) = [CaseCreated (PInt 1)]"
    by (simp add: write_broken_def w1_def print_def write_document_def no_files_def)
  show ?thesis
    unfolding r by (simp add: l0 load_write_broken p)
qed

text \<open>
  Claim C8. In every world that \<open>handle_init\<close>, \<open>handle_add\<close> and \<open>handle_update\<close>
  reach from an empty store, \<open>load\<close> returns a collection with pairwise distinct
  ids; the id that \<open>handle_add\<close> assigns there is an integer strictly greater than
  every existing id; and \<open>handle_update\<close> leaves the sequence of ids as it was.
\<close>

theorem case_ids_distinct:
  "(reachable repo w \<longrightarrow>
      (\<exists>cases. load cls repo w = Inr cases \<and> distinct (map case_id cases))) \<and>
   (reachable repo w \<and> load cls repo w = Inr cases \<and> handle_add cls args repo w = Inr w' \<longrightarrow>
      (\<exists>c n. load cls repo w' = Inr (cases @ [c]) \<and> case_id c = PInt n \<and>
         (\<forall>c0 \<in> set cases. \<exists>m. case_id c0 = PInt m \<and> m < n))) \<and>
   (load cls repo w = Inr cases \<and> handle_update cls now uargs repo w = Inr w'' \<longrightarrow>
      (\<exists>cases'. load cls repo w'' = Inr cases' \<and> map case_id cases' = map case_id cases))"
proof (intro conjI impI)
  assume "reachable repo w"
  then have "distinct_ids repo w" by (rule reachable_distinct_ids)
  then obtain cs ids where "load cls repo w = Inr cs" "map case_id cs = map PInt ids" "distinct ids"
    unfolding distinct_ids_def by blast
  moreover from this have "distinct (map case_id cs)"
    by (simp add: distinct_map inj_on_def)
  ultimately show "\<exists>cases. load cls repo w = Inr cases \<and> distinct (map case_id cases)"
    by blast
next
  assume a: "reachable repo w \<and> load cls repo w = Inr cases \<and> handle_add cls args repo w = Inr w'"
  then have "distinct_ids repo w" by (simp add: reachable_distinct_ids)
  with a obtain ids where ids: "map case_id cases = map PInt ids"
    unfolding distinct_ids_def by (metis sum.inject(2))
  from a have h: "handle_add cls args repo w = Inr w'" by simp
  from h obtain cases0 i n e m s d where l0: "load cls repo w = Inr cases0"
    and i: "create_case_id cases0 = Inr i"
    and st: "list_all storable (cases0 @ [new_case cls i n e m s d])"
    and w': "w' = print (CaseCreated (PInt i))
       (write_document (file_path repo) (dump (cases0 @ [new_case cls i n e m s d])) w)"
    by (rule handle_add_Inr)
  from a l0 have eq: "cases0 = cases" by simp
  from create_case_id_greater [OF ids] i eq have gt: "\<forall>j \<in> set ids. j < i" by simp
  have "\<exists>k. case_id c0 = PInt k \<and> k < i" if "c0 \<in> set cases" for c0
  proof -
    from that have "case_id c0 \<in> set (map case_id cases)" by simp
    with ids have "case_id c0 \<in> PInt ` set ids" by simp
    with gt show ?thesis by auto
  qed
  moreover have "load cls repo w' = Inr (cases @ [new_case cls i n e m s d])"
    using load_write_document [OF st] by (simp add: w' load_print eq)
  moreover have "case_id (new_case cls i n e m s d) = PInt i" by simp
  ultimately show "\<exists>c n. load cls repo w' = Inr (cases @ [c]) \<and> case_id c = PInt n \<and>
         (\<forall>c0 \<in> set cases. \<exists>m. case_id c0 = PInt m \<and> m < n)"
    by blast
next
  assume "load cls repo w = Inr cases \<and> handle_update cls now uargs repo w = Inr w''"
  then show "\<exists>cases'. load cls repo w'' = Inr cases' \<and> map case_id cases' = map case_id cases"
    using handle_update_Inr [of cls now uargs repo w w'' cases] by blast
qed

theorem case_ids_distinct_witness:
  "reachable sample_repo
     (print (CaseCreated (PInt 1))
       (write_document (file_path sample_repo) (dump [sample_case 1]) no_files)) \<and>
   (\<exists>cases. load sample_class sample_repo
       (print (CaseCreated (PInt 1))
         (write_document (file_path sample_repo) (dump [sample_case 1]) no_files)) = Inr cases \<and>
      distinct (map case_id cases)) \<and>
   (\<exists>w'. handle_add sample_class sample_add sample_repo
       (print (CaseCreated (PInt 1))
         (write_document (file_path sample_repo) (dump [sample_case 1]) no_files)) = Inr w' \<and>
      (\<exists>c n. load sample_class sample_repo w' = Inr ([sample_case 1] @ [c]) \<and>
         case_id c = PInt n \<and> 1 < n)) \<and>
   (\<exists>w'. handle_update sample_class ''2024-03-01T10:00:00''
       \<lparr>data_file = ''sav_cases.json'', command = Update 1 (str ''closed'') None\<rparr> sample_repo
       (print (CaseCreated (PInt 1))
         (write_document (file_path sample_repo) (dump [sample_case 1]) no_files)) = Inr w' \<and>
      (\<exists>cases'. load sample_class sample_repo w' = Inr cases' \<and>
         map case_id cases' = map case_id [sample_case 1]))"
proof -
  define w1 where "w1 = print (CaseCreated (PInt 1))
     (write_document (file_path sample_repo) (dump [sample_case 1]) no_files)"
  let ?upd = "\<lparr>data_file = ''sav_cases.json'', command = Update 1 (str ''closed'') None\<rparr>"
  have l0: "load sample_class sample_repo no_files = Inr []" by (rule load_no_files)
  have st1: "list_all storable [sample_case 1]" by (simp add: storable_sample_case)
  have a0: "handle_add sample_class sample_add sample_repo no_files = Inr w1"
    using handle_add_result [OF l0, of 1 sample_add "str ''Jane Doe''" "str ''jane@x.com''"
        "str ''TD-50''" "str ''SN123''" "str ''No sound from pads''"] st1
    by (simp add: w1_def sample_case_def create_case_id_def sample_add_def)
  have r1: "reachable sample_repo w1"
    by (rule reachable.add [OF reachable.empty [OF l0] a0])
  have l1: "load sample_class sample_repo w1 = Inr [sample_case 1]"
    by (simp add: w1_def load_print load_write_document [OF st1])
  have i2: "create_case_id [sample_case 1] = Inr 2"
    by (simp add: create_case_id_def sample_case_def)
  have st2: "list_all storable ([sample_case 1] @ [sample_case 2])"
    by (simp add: storable_sample_case)
  from handle_add_result [OF l1 i2, of sample_add "str ''Jane Doe''" "str ''jane@x.com''"
        "str ''TD-50''" "str ''SN123''" "str ''No sound from pads''"] st2
  obtain w2 where a1: "handle_add sample_class sample_add sample_repo w1 = Inr w2"
    by (simp add: sample_add_def sample_case_def)
  have ul: "update_loop ''2024-03-01T10:00:00'' 1 (str ''closed'') None [] [sample_case 1] =
      Some ([update_status ''2024-03-01T10:00:00'' (str ''closed'') None (sample_case 1)],
            update_status ''2024-03-01T10:00:00'' (str ''closed'') None (sample_case 1))"
    by (simp add: sample_case_def Let_def)
  have "storable (update_status ''2024-03-01T10:00:00'' (str ''closed'') None (sample_case 1))"
    by (simp add: storable_iff update_status_def sample_case_def new_case_def str_error_def
        int_error_def int_repr_ok_small)
  then have "list_all storable
      [update_status ''2024-03-01T10:00:00'' (str ''closed'') None (sample_case 1)]"
    by simp
  from save_storable [OF this, of sample_repo w1] l1 ul
  obtain w3 where u1: "handle_update sample_class ''2024-03-01T10:00:00'' ?upd sample_repo w1 =
      Inr w3"
    by (simp add: handle_update_def)
  have one: "\<exists>cases. load sample_class sample_repo w1 = Inr cases \<and> distinct (map case_id cases)"
    using case_ids_distinct [where repo = sample_repo and w = w1 and cls = sample_class,
        THEN conjunct1] r1 by (rule mp)
  have "\<exists>c n. load sample_class sample_repo w2 = Inr ([sample_case 1] @ [c]) \<and> case_id c = PInt n \<and>
      (\<forall>c0 \<in> set [sample_case 1]. \<exists>m. case_id c0 = PInt m \<and> m < n)"
    using case_ids_distinct [where repo = sample_repo and w = w1 and cls = sample_class
        and cases = "[sample_case 1]" and args = sample_add and w' = w2,
        THEN conjunct2, THEN conjunct1] r1 l1 a1
    by simp
  then have two: "\<exists>c n. load sample_class sample_repo w2 = Inr ([sample_case 1] @ [c]) \<and>
      case_id c = PInt n \<and> 1 < n"
    by (simp add: sample_case_def)
  have three: "\<exists>cases'. load sample_class sample_repo w3 = Inr cases' \<and>
      map case_id cases' = map case_id [sample_case 1]"
    using case_ids_distinct [where repo = sample_repo and w = w1 and cls = sample_class
        and cases = "[sample_case 1]" and now = "''2024-03-01T10:00:00''" and w'' = w3
        and uargs = ?upd, THEN conjunct2, THEN conjunct2] l1 u1
    by simp
  from a1 two have two': "\<exists>w'. handle_add sample_class sample_add sample_repo w1 = Inr w' \<and>
      (\<exists>c n. load sample_class sample_repo w' = Inr ([sample_case 1] @ [c]) \<and>
         case_id c = PInt n \<and> 1 < n)"
    by (intro exI [of _ w2] conjI)
  from u1 three have three': "\<exists>w'. handle_update sample_class ''2024-03-01T10:00:00'' ?upd
       sample_repo w1 = Inr w' \<and>
      (\<exists>cases'. load sample_class sample_repo w' = Inr cases' \<and>
         map case_id cases' = map case_id [sample_case 1])"
    by (intro exI [of _ w3] conjI)
  from r1 one two' three' show ?thesis unfolding w1_def by (intro conjI)
qed

section \<open>ServiceCase\<close>

text \<open>
  Claim C2. A case constructed without explicit timestamps should carry the UTC time
  of the construction call. The code differs: the defaults are the two clock readings
  taken when the class statement ran. Here the class is defined on 1 January and
  \<open>main\<close> runs the \<open>add\<close> command on 2 January at 09:30; the stored case has the
  readings of 1 January in \<open>created_at\<close> and \<open>updated_at\<close>.
\<close>

theorem default_timestamps_frozen:
  "\<exists>w'. main (class_ServiceCase ''2024-01-01T00:00:00.000001'' ''2024-01-01T00:00:00.000002'')
           ''2024-01-02T09:30:00'' sample_add no_files = Inr w' \<and>
     (\<exists>c. load sample_class sample_repo w' = Inr [c] \<and>
        created_at c = PStr (str ''2024-01-01T00:00:00.000001'') \<and>
        updated_at c = PStr (str ''2024-01-01T00:00:00.000002''))"
proof -
  have l0: "load sample_class sample_repo no_files = Inr []" by (rule load_no_files)
  have st1: "list_all storable ([] @ [sample_case 1])" by (simp add: storable_sample_case)
  have "handle_add sample_class sample_add sample_repo no_files =
      Inr (print (CaseCreated (PInt 1))
            (write_document (file_path sample_repo) (dump ([] @ [sample_case 1])) no_files))"
    unfolding sample_case_def
    by (rule handle_add_result [OF l0 _ _ st1 [unfolded sample_case_def]])
      (simp_all add: create_case_id_def sample_add_def)
  then have m: "main sample_class ''2024-01-02T09:30:00'' sample_add no_files =
      Inr (print (CaseCreated (PInt 1))
            (write_document (file_path sample_repo) (dump [sample_case 1]) no_files))"
    by (simp add: main_def sample_add_def sample_repo_def)
  have l1: "load sample_class sample_repo
      (print (CaseCreated (PInt 1))
        (write_document (file_path sample_repo) (dump [sample_case 1]) no_files)) =
      Inr [sample_case 1]"
    using load_write_document [of "[sample_case 1]" sample_class sample_repo no_files] st1
    by (simp add: load_print)
  have c: "created_at (sample_case 1) = PStr (str ''2024-01-01T00:00:00.000001'')"
    "updated_at (sample_case 1) = PStr (str ''2024-01-01T00:00:00.000002'')"
    by (simp_all add: sample_case_def new_case_def sample_class_def class_ServiceCase_def)
  from m l1 c show ?thesis
    unfolding sample_class_def [symmetric] by (intro exI conjI)
qed

text \<open>
  Claim C3. \<open>update_status\<close> sets \<open>status\<close> to the new status, overwrites
  \<open>resolution_notes\<close> exactly when notes are given, sets \<open>updated_at\<close> to the current
  clock reading, and leaves the other seven fields as they were.
\<close>

theorem update_status_effect:
  "status (update_status now new_status notes c) = PStr new_status \<and>
   resolution_notes (update_status now new_status notes c) =
     (case notes of None \<Rightarrow> resolution_notes c | Some n \<Rightarrow> PStr n) \<and>
   updated_at (update_status now new_status notes c) = PStr (str now) \<and>
   case_id (update_status now new_status notes c) = case_id c \<and>
   customer_name (update_status now new_status notes c) = customer_name c \<and>
   contact_email (update_status now new_status notes c) = contact_email c \<and>
   product_model (update_status now new_status notes c) = product_model c \<and>
   serial_number (update_status now new_status notes c) = serial_number c \<and>
   issue_description (update_status now new_status notes c) = issue_description c \<and>
   created_at (update_status now new_status notes c) = created_at c"
  by (simp add: update_status_def split: option.split)

theorem update_status_effect_witness:
  "update_status ''2024-03-01T10:00:00'' (str ''closed'') (Some (str ''fixed'')) (sample_case 1) =
     (sample_case 1)\<lparr>status := PStr (str ''closed''),
        updated_at := PStr (str ''2024-03-01T10:00:00''),
        resolution_notes := PStr (str ''fixed'')\<rparr> \<and>
   update_status ''2024-03-01T10:00:00'' (str ''closed'') None (sample_case 1) =
     (sample_case 1)\<lparr>status := PStr (str ''closed''),
        updated_at := PStr (str ''2024-03-01T10:00:00'')\<rparr>"
  using update_status_effect [of "''2024-03-01T10:00:00''" "str ''closed''" "Some (str ''fixed'')"
      "sample_case 1"]
    update_status_effect [of "''2024-03-01T10:00:00''" "str ''closed''" None "sample_case 1"]
  by (simp add: ServiceCase.equality)

text \<open>
  Claim C7. For a case whose fields have the annotated types, \<open>from_dict\<close> applied to
  the mapping that \<open>asdict\<close> returns gives the case back, equal in every field.
\<close>

theorem from_dict_after_asdict:
  "well_typed c \<Longrightarrow> from_dict cls (PDict (asdict c)) = Inr c"
  by (simp add: ServiceCase_init_asdict)

theorem from_dict_after_asdict_witness:
  "well_typed (sample_case 7) \<and>
   from_dict sample_class (PDict (asdict (sample_case 7))) = Inr (sample_case 7)"
proof -
  have wt: "well_typed (sample_case 7)" by (simp add: sample_case_def)
  from wt from_dict_after_asdict [OF wt] show ?thesis by simp
qed

section \<open>The repository\<close>

text \<open>
  Claim C4, as amended. For a sequence of well-typed cases that \<open>json.dump\<close> can
  write (no string holds a lone surrogate and no id has more than 4300 digits, lemma
  \<open>storable_typed\<close>), \<open>save\<close> returns, and loading from the same repository then
  returns the same cases in the same order.
\<close>

theorem save_then_load:
  assumes "list_all well_typed X" and "list_all storable X"
  shows "\<exists>w'. save repo X w = Inr w' \<and> load cls repo w' = Inr X"
  using assms(2) by (simp add: save_storable load_write_document)

theorem save_then_load_witness:
  "list_all well_typed [sample_case 2, sample_case 1] \<and>
   list_all storable [sample_case 2, sample_case 1] \<and>
   (\<exists>w'. save sample_repo [sample_case 2, sample_case 1] no_files = Inr w' \<and>
      load sample_class sample_repo w' = Inr [sample_case 2, sample_case 1])"
proof -
  have wt: "list_all well_typed [sample_case 2, sample_case 1]"
    by (simp add: sample_case_def)
  have st: "list_all storable [sample_case 2, sample_case 1]"
    by (simp add: storable_sample_case)
  from wt st save_then_load [OF wt st] show ?thesis by (intro conjI)
qed

text \<open>
  The claim as it was stated, for every sequence of well-typed cases, fails: the
  customer name of this case is a \<open>str\<close>, a lone surrogate. \<open>save\<close> raises
  \<open>UnicodeEncodeError\<close> and leaves a file that \<open>load\<close> rejects.
\<close>

theorem save_then_load_counterexample:
  "list_all well_typed [bad_case 1] \<and>
   raised (save sample_repo [bad_case 1] no_files) = Some UnicodeEncodeError \<and>
   load sample_class sample_repo (world_of (save sample_repo [bad_case 1] no_files)) =
     Inl JSONDecodeError"
proof -
  have "save sample_repo ([] @ bad_case 1 # []) no_files =
      Inl (UnicodeEncodeError, write_broken (file_path sample_repo) no_files)"
    by (rule save_raises [OF _ encode_error_bad_case]) simp_all
  then show ?thesis by (simp add: load_write_broken bad_case_def)
qed

text \<open>
  Claim C5. When the backing file does not exist, \<open>load\<close> returns the empty
  sequence and raises nothing.
\<close>

theorem load_of_missing_file:
  "\<not> exists_file w (file_path repo) \<Longrightarrow> load cls repo w = Inr []"
  by (simp add: exists_file_def load_def)

theorem load_of_missing_file_witness:
  "\<not> exists_file no_files (file_path sample_repo) \<and>
   load sample_class sample_repo no_files = Inr []"
proof -
  have h: "\<not> exists_file no_files (file_path sample_repo)"
    by (simp add: exists_file_def no_files_def)
  from h load_of_missing_file [OF h] show ?thesis by simp
qed

section \<open>The update and init commands\<close>

text \<open>
  Claim C6. When the stored collection has no case with the requested id,
  \<open>handle_update\<close> returns normally and leaves every file as it was: the only
  event it adds to the trace is the message that no such case exists, so nothing is
  written.
\<close>

theorem update_of_unknown_id:
  assumes "load cls repo w = Inr cases" and "list_all well_typed cases"
    and "PInt cid \<notin> set (map case_id cases)" and "command args = Update cid st nts"
  shows "\<exists>w'. handle_update cls now args repo w = Inr w' \<and> files w' = files w \<and>
           trace w' = trace w @ [Printed (CaseNotFound cid)]"
proof -
  have "\<not> py_eq_int (case_id x) cid" if "x \<in> set cases" for x
  proof -
    from that assms(2) have "is_int (case_id x)"
      by (simp add: list_all_iff well_typed_def)
    moreover from that assms(3) have "case_id x \<noteq> PInt cid" by force
    ultimately show ?thesis by (simp add: py_eq_int_typed)
  qed
  then have "update_loop now cid st nts [] cases = None"
    by (intro update_loop_None) blast
  with assms(1,4) show ?thesis
    by (simp add: handle_update_def print_def)
qed

theorem update_of_unknown_id_witness:
  "load sample_class sample_repo
     (write_document (file_path sample_repo) (dump [sample_case 1, sample_case 2]) no_files) =
     Inr [sample_case 1, sample_case 2] \<and>
   list_all well_typed [sample_case 1, sample_case 2] \<and>
   PInt 5 \<notin> set (map case_id [sample_case 1, sample_case 2]) \<and>
   (\<exists>w'. handle_update sample_class ''2024-03-01T10:00:00''
       \<lparr>data_file = ''sav_cases.json'', command = Update 5 (str ''closed'') None\<rparr> sample_repo
       (write_document (file_path sample_repo) (dump [sample_case 1, sample_case 2]) no_files) =
       Inr w' \<and>
      files w' =
        files (write_document (file_path sample_repo) (dump [sample_case 1, sample_case 2])
          no_files) \<and>
      trace w' =
        trace (write_document (file_path sample_repo) (dump [sample_case 1, sample_case 2])
          no_files) @ [Printed (CaseNotFound 5)])"
proof -
  let ?w = "write_document (file_path sample_repo) (dump [sample_case 1, sample_case 2]) no_files"
  have st: "list_all storable [sample_case 1, sample_case 2]"
    by (simp add: storable_sample_case)
  have l: "load sample_class sample_repo ?w = Inr [sample_case 1, sample_case 2]"
    by (rule load_write_document [OF st])
  have wt: "list_all well_typed [sample_case 1, sample_case 2]"
    by (simp add: sample_case_def)
  have n: "PInt 5 \<notin> set (map case_id [sample_case 1, sample_case 2])"
    by (simp add: sample_case_def)
  have c: "command \<lparr>data_file = ''sav_cases.json'', command = Update 5 (str ''closed'') None\<rparr> =
      Update 5 (str ''closed'') None"
    by simp
  from l wt n update_of_unknown_id [OF l wt n c, of "''2024-03-01T10:00:00''"]
  show ?thesis by (intro conjI)
qed




text \<open>
  Claim C9. The \<open>init\<close> command should create an empty store when the file is
  missing and leave an existing file alone. \<open>handle_init\<close> does so when it is called
  with the repository (lemmas \<open>handle_init_creates\<close> and \<open>handle_init_keeps\<close>), but it
  has one parameter and \<open>main\<close> calls every handler with two arguments: the command
  raises \<open>TypeError\<close> and creates nothing.
\<close>

theorem main_init_raises:
  "main sample_class ''2024-03-01T10:00:00'' \<lparr>data_file = ''sav_cases.json'', command = Init\<rparr>
     no_files = Inl (TypeError, no_files)"
  by (simp add: main_def)

end
